theory Spec2Isabelle
  imports Main "HOL-Library.Word"
begin

unbundle bit_operations_syntax

section \<open>The ns-3 primitives that tcp\_echo.cc calls\<close>

text \<open>
  The program is one file, \<^verbatim>\<open>tcp_echo.cc\<close>: the class \<^verbatim>\<open>CustomTcpClient\<close> (the packet
  generator), the free function \<^verbatim>\<open>PacketReceived\<close> (the latency recorder) and \<^verbatim>\<open>main\<close>.
  Everything else is the ns-3 library. The few library operations the two components
  call are written out here, as far as the program observes them.
\<close>

type_synonym byte = "8 word"
type_synonym uint32 = "32 word"
type_synonym uint64 = "64 word"

text \<open>
  \<^verbatim>\<open>ns3::Time\<close> holds a signed 64-bit tick count (\<^verbatim>\<open>int64_t m_data\<close>); \<^verbatim>\<open>main\<close> sets the
  resolution to \<^verbatim>\<open>Time::NS\<close>, so a tick is a nanosecond. A \<open>Time\<close> is read with
  \<^const>\<open>sint\<close>; \<open>+\<close> and \<open>-\<close> are the 64-bit operations.
\<close>

type_synonym Time = "64 word"

text \<open>
  \<^verbatim>\<open>Time::GetNanoSeconds\<close> returns the tick count as \<^verbatim>\<open>int64_t\<close>, which the program
  stores in a \<^verbatim>\<open>uint64_t\<close>; \<^verbatim>\<open>NanoSeconds(uint64_t)\<close> stores its argument in \<^verbatim>\<open>m_data\<close>.
  Both conversions keep the 64 bits.
\<close>

definition GetNanoSeconds :: "Time \<Rightarrow> uint64" where
  "GetNanoSeconds t = t"

definition NanoSeconds :: "uint64 \<Rightarrow> Time" where
  "NanoSeconds v = v"

text \<open>
  The program reads and writes the timestamp through \<^verbatim>\<open>(uint8_t *)&timestampNs\<close>: the
  eight bytes of the object representation, in the byte order of the host. The byte
  order is a parameter of the model.
\<close>

datatype byte_order = LittleEndian | BigEndian

definition le_bytes :: "uint64 \<Rightarrow> byte list" where
  "le_bytes w = map (\<lambda>i. ucast (drop_bit (8 * i) w)) [0..<8]"

fun le_value :: "byte list \<Rightarrow> uint64" where
  "le_value [] = 0"
| "le_value (b # bs) = ucast b OR push_bit 8 (le_value bs)"

fun object_bytes :: "byte_order \<Rightarrow> uint64 \<Rightarrow> byte list" where
  "object_bytes LittleEndian w = le_bytes w"
| "object_bytes BigEndian w = rev (le_bytes w)"

fun object_value :: "byte_order \<Rightarrow> byte list \<Rightarrow> uint64" where
  "object_value LittleEndian bs = le_value bs"
| "object_value BigEndian bs = le_value (rev bs)"

text \<open>
  A \<^verbatim>\<open>Packet\<close> is its payload bytes: \<^verbatim>\<open>Create<Packet>(buf, n)\<close> copies \<open>n\<close> bytes,
  \<^verbatim>\<open>GetSize\<close> is the length and \<^verbatim>\<open>CopyData(buf, n)\<close> copies the first \<open>n\<close> bytes out.
\<close>

type_synonym Packet = "byte list"

definition CopyData :: "Packet \<Rightarrow> nat \<Rightarrow> byte list" where
  "CopyData packet n = take n packet"

type_synonym Address = nat

datatype Socket = TcpSocket Address

datatype log_level = LOG_INFO | LOG_WARN

type_synonym log_entry = "log_level \<times> string"

text \<open>
  The simulator as the generator sees it: the virtual clock, the pending
  \<^verbatim>\<open>SendPacket\<close> events (their firing times, kept in firing order, insertion order among
  equal times), every \<^verbatim>\<open>Socket::Send\<close> call with the time it was made, the sockets closed,
  and the \<^verbatim>\<open>NS_LOG\<close> calls (the constant text of each message).
\<close>

record world =
  now :: Time
  events :: "Time list"
  sent :: "(Time \<times> Packet) list"
  closed :: "Socket list"
  logs :: "log_entry list"

fun insert_event :: "Time \<Rightarrow> Time list \<Rightarrow> Time list" where
  "insert_event t [] = [t]"
| "insert_event t (u # us) = (if t <s u then t # u # us else u # insert_event t us)"

text \<open>\<^verbatim>\<open>Simulator::Schedule(delay, ...)\<close>: the event fires at \<^verbatim>\<open>Now() + delay\<close>.\<close>

definition Schedule :: "Time \<Rightarrow> world \<Rightarrow> world" where
  "Schedule delay w = w\<lparr>events := insert_event (now w + delay) (events w)\<rparr>"

definition NS_LOG :: "log_level \<Rightarrow> string \<Rightarrow> world \<Rightarrow> world" where
  "NS_LOG lvl msg w = w\<lparr>logs := logs w @ [(lvl, msg)]\<rparr>"

section \<open>The packet generator: class CustomTcpClient\<close>

record CustomTcpClient =
  m_socket :: "Socket option"
  m_serverAddress :: Address
  m_packetSize :: uint32
  m_numPackets :: uint32
  m_interval :: Time
  m_packetsSent :: uint32
  m_connected :: bool

text \<open>
  The constructor sets \<^verbatim>\<open>m_socket(0)\<close>, \<^verbatim>\<open>m_connected(false)\<close> and \<^verbatim>\<open>m_packetsSent = 0\<close>;
  the address and the interval are default-constructed. \<^verbatim>\<open>m_packetSize\<close> and
  \<^verbatim>\<open>m_numPackets\<close> are left uninitialised: their values are the two arguments.
\<close>

definition new_CustomTcpClient :: "uint32 \<Rightarrow> uint32 \<Rightarrow> CustomTcpClient" where
  "new_CustomTcpClient size0 num0 =
     \<lparr>m_socket = None, m_serverAddress = 0, m_packetSize = size0, m_numPackets = num0,
      m_interval = 0, m_packetsSent = 0, m_connected = False\<rparr>"

text \<open>
  \<^verbatim>\<open>Setup\<close>. The interval is \<^verbatim>\<open>Seconds(1.0 / rate)\<close>: a division of doubles and ns-3's
  conversion of a double to a \<open>Time\<close>. That computation is the parameter \<open>seconds_per\<close>
  (the interval as a function of the rate). The packet count is a product of two
  \<^verbatim>\<open>uint32_t\<close>, so it wraps at \<open>2^32\<close>. \<^verbatim>\<open>Setup\<close> returns \<^verbatim>\<open>void\<close> and has no failing path.
\<close>

definition Setup ::
  "(uint32 \<Rightarrow> Time) \<Rightarrow> Address \<Rightarrow> uint32 \<Rightarrow> uint32 \<Rightarrow> uint32 \<Rightarrow> CustomTcpClient \<Rightarrow> CustomTcpClient"
where
  "Setup seconds_per serverAddress packetSize rate duration c =
     c\<lparr>m_serverAddress := serverAddress,
       m_packetSize := packetSize,
       m_interval := seconds_per rate,
       m_numPackets := rate * duration\<rparr>"

text \<open>
  \<^verbatim>\<open>StartApplication\<close> creates the socket and connects it to the server address; ns-3
  later calls \<^verbatim>\<open>ConnectionSucceeded\<close> or \<^verbatim>\<open>ConnectionFailed\<close>.
\<close>

definition StartApplication :: "CustomTcpClient \<times> world \<Rightarrow> CustomTcpClient \<times> world" where
  "StartApplication s =
     (case s of (c, w) \<Rightarrow> (c\<lparr>m_socket := Some (TcpSocket (m_serverAddress c))\<rparr>, w))"

definition StopApplication :: "CustomTcpClient \<times> world \<Rightarrow> CustomTcpClient \<times> world" where
  "StopApplication s =
     (case s of (c, w) \<Rightarrow>
        (case m_socket c of
           None \<Rightarrow> (c, w)
         | Some sk \<Rightarrow> (c\<lparr>m_socket := None\<rparr>, w\<lparr>closed := closed w @ [sk]\<rparr>)))"

definition SendPacket :: "byte_order \<Rightarrow> CustomTcpClient \<times> world \<Rightarrow> CustomTcpClient \<times> world" where
  "SendPacket e s =
     (case s of (c, w) \<Rightarrow>
        if m_socket c = None
        then (c, NS_LOG LOG_WARN ''Socket is null. Cannot send packet.'' w)
        else if m_packetsSent c < m_numPackets c
        then
          (let sendTime = now w;
               timestampNs = GetNanoSeconds sendTime;
               packet = object_bytes e timestampNs;
               w1 = NS_LOG LOG_INFO ''Sending packet '' w;
               w2 = w1\<lparr>sent := sent w1 @ [(now w1, packet)]\<rparr>
           in (c\<lparr>m_packetsSent := m_packetsSent c + 1\<rparr>, Schedule (m_interval c) w2))
        else (c, w))"

definition ConnectionSucceeded :: "byte_order \<Rightarrow> CustomTcpClient \<times> world \<Rightarrow> CustomTcpClient \<times> world" where
  "ConnectionSucceeded e s =
     (case s of (c, w) \<Rightarrow>
        SendPacket e (c\<lparr>m_connected := True\<rparr>, NS_LOG LOG_INFO ''Connection Succeeded'' w))"

definition ConnectionFailed :: "CustomTcpClient \<times> world \<Rightarrow> CustomTcpClient \<times> world" where
  "ConnectionFailed s = (case s of (c, w) \<Rightarrow> (c, NS_LOG LOG_INFO ''Connection Failed'' w))"

text \<open>
  \<^verbatim>\<open>Simulator::Run\<close>, for the generator's events: while an event is pending, the clock
  moves to the first one and its \<^verbatim>\<open>SendPacket\<close> runs.
\<close>

function run :: "byte_order \<Rightarrow> CustomTcpClient \<times> world \<Rightarrow> CustomTcpClient \<times> world" where
  "run e (c, w) =
     (case events w of
        [] \<Rightarrow> (c, w)
      | t # ts \<Rightarrow> run e (SendPacket e (c, w\<lparr>now := t, events := ts\<rparr>)))"
  by pat_completeness auto

text \<open>
  Every \<^verbatim>\<open>SendPacket\<close> either sends one of the packets that remain and replaces its event
  by one new event, or leaves one event less: the run always ends.
\<close>

termination run
proof (relation "measure (\<lambda>(e, c, w).
          unat (m_numPackets c) - unat (m_packetsSent c) + length (events w))", goal_cases)
  case 1
  show ?case by simp
next
  case (2 e c w t ts)
  have len: "length (insert_event u us) = Suc (length us)" for u us
    by (induction us) auto
  have suc: "unat (a + 1) = Suc (unat a)" if "a < n" for a n :: uint32
    using that by unat_arith
  show ?case
    using 2
    by (auto simp: SendPacket_def NS_LOG_def Schedule_def Let_def len suc word_less_nat_alt)
qed

section \<open>The latency recorder: PacketReceived\<close>

text \<open>
  The recorder's state is the global vector \<^verbatim>\<open>latencies\<close> and its \<^verbatim>\<open>NS_LOG\<close> calls. A sample
  is the \<^verbatim>\<open>double\<close> that \<^verbatim>\<open>Time::GetSeconds\<close> returns for the difference of two times.
  That conversion of a tick count to a double is the parameter \<open>GetSeconds\<close>, and \<open>'d\<close> is
  the type of its results. \<open>simNow\<close> is the value of \<^verbatim>\<open>Simulator::Now()\<close> at the arrival.
\<close>

record 'd recorder =
  latencies :: "'d list"
  rx_logs :: "log_entry list"

definition PacketReceived ::
  "byte_order \<Rightarrow> (Time \<Rightarrow> 'd) \<Rightarrow> Time \<Rightarrow> Packet \<Rightarrow> Address \<Rightarrow> 'd recorder \<Rightarrow> 'd recorder"
where
  "PacketReceived e GetSeconds simNow packet src r =
     (if 8 \<le> length packet
      then
        (let timestampNs = object_value e (CopyData packet 8);
             sendTime = NanoSeconds timestampNs;
             receiveTime = simNow;
             latency = GetSeconds (receiveTime - sendTime)
         in r\<lparr>latencies := latencies r @ [latency],
              rx_logs := rx_logs r @ [(LOG_INFO, ''Packet received from: '')]\<rparr>)
      else r\<lparr>rx_logs := rx_logs r
                @ [(LOG_WARN, ''Packet received with insufficient size. Ignoring...'')]\<rparr>)"

text \<open>A sequence of arrivals: each is the receive time, the packet and its source.\<close>

fun arrivals ::
  "byte_order \<Rightarrow> (Time \<Rightarrow> 'd) \<Rightarrow> (Time \<times> Packet \<times> Address) list \<Rightarrow> 'd recorder \<Rightarrow> 'd recorder"
where
  "arrivals e GetSeconds [] r = r"
| "arrivals e GetSeconds ((t, packet, src) # rest) r =
     arrivals e GetSeconds rest (PacketReceived e GetSeconds t packet src r)"

section \<open>Facts about the byte representation\<close>

lemma take_bit_8_or_push:
  "take_bit 8 (v :: uint64) OR push_bit 8 (take_bit m (drop_bit 8 v)) = take_bit (m + 8) v"
  by (rule bit_word_eqI) (auto simp add: bit_simps)

lemma ucast_byte_back: "(ucast (ucast (v :: uint64) :: byte) :: uint64) = take_bit 8 v"
  by (rule bit_word_eqI) (auto simp add: bit_simps)

lemma le_value_slices:
  "le_value (map (\<lambda>i. ucast (drop_bit (8 * i) w)) [k..<k + n]) =
     take_bit (8 * n) (drop_bit (8 * k) w)"
proof (induction n arbitrary: k)
  case 0
  show ?case by simp
next
  case (Suc n)
  have "[k..<k + Suc n] = k # [Suc k..<Suc k + n]"
    by (simp add: upt_rec)
  then show ?case
    using Suc [of "Suc k"] take_bit_8_or_push [of "drop_bit (8 * k) w" "8 * n"]
    by (simp add: ucast_byte_back drop_bit_drop_bit ac_simps)
qed

lemma le_value_le_bytes: "le_value (le_bytes w) = w"
  using le_value_slices [of w 0 8] by (simp add: le_bytes_def take_bit_word_eq_self)

lemma length_object_bytes: "length (object_bytes e w) = 8"
  by (cases e) (simp_all add: le_bytes_def)

lemma object_value_object_bytes: "object_value e (object_bytes e w) = w"
  by (cases e) (simp_all add: le_value_le_bytes)

section \<open>Facts about signed 64-bit differences\<close>

lemma sint_bounds64:
  fixes a :: "64 word"
  shows "- 9223372036854775808 \<le> sint a" "sint a < 9223372036854775808"
  using sint_ge [of a] sint_lt [of a] by simp_all

lemma sint_eq_uint_below:
  fixes s t :: "64 word"
  assumes "uint s \<le> sint t"
  shows "sint s = uint s"
proof -
  have "uint s < 9223372036854775808"
    using assms sint_bounds64 (2) [of t] by linarith
  moreover have "- 9223372036854775808 \<le> uint s"
    using uint_ge_0 [of s] by linarith
  ultimately have "signed_take_bit 63 (uint s) = uint s"
    by (intro signed_take_bit_int_eq_self) simp_all
  then show ?thesis
    by (simp add: sint_uint)
qed

lemma sint_diff_in_range:
  fixes a b :: "64 word"
  assumes "- 9223372036854775808 \<le> sint a - sint b" "sint a - sint b < 9223372036854775808"
  shows "sint (a - b) = sint a - sint b"
proof -
  have "signed_take_bit 63 (sint a - sint b) = sint a - sint b"
    using assms by (intro signed_take_bit_int_eq_self) simp_all
  then show ?thesis
    by (simp add: sint_word_ariths)
qed

lemma sint_diff_causal:
  fixes recv s :: "64 word"
  assumes "uint s \<le> sint recv"
  shows "sint (recv - s) = sint recv - uint s"
proof -
  have s: "sint s = uint s"
    using assms by (rule sint_eq_uint_below)
  have "- 9223372036854775808 \<le> sint recv - sint s" "sint recv - sint s < 9223372036854775808"
    using assms uint_ge_0 [of s] sint_bounds64 (2) [of recv] unfolding s by linarith+
  then show ?thesis
    using sint_diff_in_range [of recv s] by (simp add: s)
qed

lemma sint_diff_late:
  fixes recv s :: "64 word"
  assumes "0 \<le> sint recv" "sint recv < sint s"
  shows "sint (recv - s) = sint recv - sint s"
proof -
  have "- 9223372036854775808 \<le> sint recv - sint s" "sint recv - sint s < 9223372036854775808"
    using assms sint_bounds64 (2) [of s] by linarith+
  then show ?thesis
    by (rule sint_diff_in_range)
qed

section \<open>Facts about the generator\<close>

lemma length_insert_event: "length (insert_event t us) = Suc (length us)"
  by (induction us) auto

lemma unat_succ_below: "(a :: 'a::len word) < n \<Longrightarrow> unat (a + 1) = Suc (unat a)"
  by unat_arith

lemma SendPacket_null:
  "m_socket c = None \<Longrightarrow>
     SendPacket e (c, w) = (c, NS_LOG LOG_WARN ''Socket is null. Cannot send packet.'' w)"
  by (simp add: SendPacket_def)

lemma SendPacket_send:
  "m_socket c \<noteq> None \<Longrightarrow> m_packetsSent c < m_numPackets c \<Longrightarrow>
     SendPacket e (c, w) =
       (c\<lparr>m_packetsSent := m_packetsSent c + 1\<rparr>,
        w\<lparr>logs := logs w @ [(LOG_INFO, ''Sending packet '')],
          sent := sent w @ [(now w, object_bytes e (GetNanoSeconds (now w)))],
          events := insert_event (now w + m_interval c) (events w)\<rparr>)"
  by (auto simp add: SendPacket_def NS_LOG_def Schedule_def Let_def)

lemma SendPacket_done:
  "m_socket c \<noteq> None \<Longrightarrow> \<not> m_packetsSent c < m_numPackets c \<Longrightarrow> SendPacket e (c, w) = (c, w)"
  by (auto simp add: SendPacket_def)

lemma map_offsets_Suc:
  fixes t d :: Time
  shows "map (\<lambda>i. (t + of_nat i * d, object_bytes e (GetNanoSeconds (t + of_nat i * d))))
           [0..<Suc k] =
         (t, object_bytes e (GetNanoSeconds t))
           # map (\<lambda>i. (t + d + of_nat i * d, object_bytes e (GetNanoSeconds (t + d + of_nat i * d))))
               [0..<k]"
proof -
  have "[0..<Suc k] = 0 # map Suc [0..<k]"
    by (simp add: upt_conv_Cons map_Suc_upt del: upt_Suc)
  then show ?thesis
    by (simp add: comp_def algebra_simps del: upt_Suc)
qed

lemma run_chain:
  assumes "m_socket c \<noteq> None" "events w = [t]"
    and "unat (m_numPackets c) - unat (m_packetsSent c) = k"
    and "m_packetsSent c \<le> m_numPackets c"
  shows "run e (c, w) =
     (c\<lparr>m_packetsSent := m_numPackets c\<rparr>,
      w\<lparr>now := t + of_nat k * m_interval c,
        events := [],
        sent := sent w @ map (\<lambda>i. (t + of_nat i * m_interval c,
                  object_bytes e (GetNanoSeconds (t + of_nat i * m_interval c)))) [0..<k],
        logs := logs w @ replicate k (LOG_INFO, ''Sending packet '')\<rparr>)"
  using assms
proof (induction k arbitrary: c w t)
  case 0
  then have eq: "m_packetsSent c = m_numPackets c"
    by (simp add: word_le_nat_alt word_unat_eq_iff)
  then have "\<not> m_packetsSent c < m_numPackets c"
    by simp
  with 0 have "run e (c, w) = (c, w\<lparr>now := t, events := []\<rparr>)"
    by (simp add: SendPacket_done)
  moreover have "c\<lparr>m_packetsSent := m_numPackets c\<rparr> = c"
    using eq by simp
  ultimately show ?case
    using 0 by simp
next
  case (Suc k)
  then have lt: "m_packetsSent c < m_numPackets c"
    by (simp add: word_less_nat_alt)
  let ?c = "c\<lparr>m_packetsSent := m_packetsSent c + 1\<rparr>"
  let ?w = "w\<lparr>now := t,
              logs := logs w @ [(LOG_INFO, ''Sending packet '')],
              sent := sent w @ [(t, object_bytes e (GetNanoSeconds t))],
              events := [t + m_interval c]\<rparr>"
  have "SendPacket e (c, w\<lparr>now := t, events := []\<rparr>) = (?c, ?w)"
    using Suc.prems(1) lt by (simp add: SendPacket_send)
  then have step: "run e (c, w) = run e (?c, ?w)"
    using Suc.prems(2) by (subst run.simps) (simp del: run.simps)
  have u: "unat (m_packetsSent c + 1) = Suc (unat (m_packetsSent c))"
    using lt by (rule unat_succ_below)
  have "run e (?c, ?w) =
     (?c\<lparr>m_packetsSent := m_numPackets ?c\<rparr>,
      ?w\<lparr>now := (t + m_interval c) + of_nat k * m_interval ?c,
        events := [],
        sent := sent ?w @ map (\<lambda>i. (t + m_interval c + of_nat i * m_interval ?c,
                  object_bytes e (GetNanoSeconds (t + m_interval c + of_nat i * m_interval ?c))))
                  [0..<k],
        logs := logs ?w @ replicate k (LOG_INFO, ''Sending packet '')\<rparr>)"
  proof (rule Suc.IH)
    show "m_socket ?c \<noteq> None" using Suc.prems(1) by simp
    show "events ?w = [t + m_interval c]" by simp
    show "unat (m_numPackets ?c) - unat (m_packetsSent ?c) = k"
      using Suc.prems(3) u by simp
    show "m_packetsSent ?c \<le> m_numPackets ?c"
      using lt u by (simp add: word_le_nat_alt word_less_nat_alt)
  qed
  also have "\<dots> =
     (c\<lparr>m_packetsSent := m_numPackets c\<rparr>,
      w\<lparr>now := t + of_nat (Suc k) * m_interval c,
        events := [],
        sent := sent w @ map (\<lambda>i. (t + of_nat i * m_interval c,
                  object_bytes e (GetNanoSeconds (t + of_nat i * m_interval c)))) [0..<Suc k],
        logs := logs w @ replicate (Suc k) (LOG_INFO, ''Sending packet '')\<rparr>)"
    unfolding map_offsets_Suc
    by (simp add: replicate_app_Cons_same algebra_simps del: upt_Suc)
  finally show ?case
    unfolding step .
qed

lemma run_after_connect:
  assumes "m_socket c \<noteq> None" "events w = []" "m_packetsSent c \<le> m_numPackets c"
  shows "run e (ConnectionSucceeded e (c, w)) =
     (c\<lparr>m_connected := True, m_packetsSent := m_numPackets c\<rparr>,
      w\<lparr>now := now w + of_nat (unat (m_numPackets c) - unat (m_packetsSent c)) * m_interval c,
        events := [],
        sent := sent w @ map (\<lambda>i. (now w + of_nat i * m_interval c,
                  object_bytes e (GetNanoSeconds (now w + of_nat i * m_interval c))))
                  [0..<unat (m_numPackets c) - unat (m_packetsSent c)],
        logs := logs w @ (LOG_INFO, ''Connection Succeeded'')
                  # replicate (unat (m_numPackets c) - unat (m_packetsSent c))
                      (LOG_INFO, ''Sending packet '')\<rparr>)"
proof (cases "m_packetsSent c < m_numPackets c")
  case False
  with assms(3) have eq: "m_packetsSent c = m_numPackets c"
    by simp
  have "ConnectionSucceeded e (c, w) =
          (c\<lparr>m_connected := True\<rparr>, NS_LOG LOG_INFO ''Connection Succeeded'' w)"
    using assms(1) False by (simp add: ConnectionSucceeded_def SendPacket_done)
  moreover have "c\<lparr>m_connected := True, m_packetsSent := m_numPackets c\<rparr> = c\<lparr>m_connected := True\<rparr>"
    using eq by simp
  ultimately show ?thesis
    using assms(2) eq by (simp add: NS_LOG_def)
next
  case True
  define k where "k = unat (m_numPackets c) - unat (m_packetsSent c) - 1"
  have k: "unat (m_numPackets c) - unat (m_packetsSent c) = Suc k"
    using True by (simp add: k_def word_less_nat_alt)
  let ?c = "c\<lparr>m_connected := True, m_packetsSent := m_packetsSent c + 1\<rparr>"
  let ?w = "w\<lparr>logs := logs w @ [(LOG_INFO, ''Connection Succeeded''), (LOG_INFO, ''Sending packet '')],
              sent := sent w @ [(now w, object_bytes e (GetNanoSeconds (now w)))],
              events := [now w + m_interval c]\<rparr>"
  have conn: "ConnectionSucceeded e (c, w) = (?c, ?w)"
    using assms(1,2) True
    by (simp add: ConnectionSucceeded_def SendPacket_send NS_LOG_def)
  have u: "unat (m_packetsSent c + 1) = Suc (unat (m_packetsSent c))"
    using True by (rule unat_succ_below)
  have "run e (?c, ?w) =
     (?c\<lparr>m_packetsSent := m_numPackets ?c\<rparr>,
      ?w\<lparr>now := (now w + m_interval c) + of_nat k * m_interval ?c,
        events := [],
        sent := sent ?w @ map (\<lambda>i. (now w + m_interval c + of_nat i * m_interval ?c,
                  object_bytes e (GetNanoSeconds (now w + m_interval c + of_nat i * m_interval ?c))))
                  [0..<k],
        logs := logs ?w @ replicate k (LOG_INFO, ''Sending packet '')\<rparr>)"
  proof (rule run_chain)
    show "m_socket ?c \<noteq> None" using assms(1) by simp
    show "events ?w = [now w + m_interval c]" by simp
    show "unat (m_numPackets ?c) - unat (m_packetsSent ?c) = k"
      using k u by simp
    show "m_packetsSent ?c \<le> m_numPackets ?c"
      using True u by (simp add: word_le_nat_alt word_less_nat_alt)
  qed
  also have "\<dots> =
     (c\<lparr>m_connected := True, m_packetsSent := m_numPackets c\<rparr>,
      w\<lparr>now := now w + of_nat (Suc k) * m_interval c,
        events := [],
        sent := sent w @ map (\<lambda>i. (now w + of_nat i * m_interval c,
                  object_bytes e (GetNanoSeconds (now w + of_nat i * m_interval c))))
                  [0..<Suc k],
        logs := logs w @ (LOG_INFO, ''Connection Succeeded'')
                  # replicate (Suc k) (LOG_INFO, ''Sending packet '')\<rparr>)"
    unfolding map_offsets_Suc
    by (simp add: replicate_app_Cons_same algebra_simps del: upt_Suc)
  finally show ?thesis
    unfolding conn k .
qed

lemma events_run: "events (snd (run e s)) = []"
proof (induction e s rule: run.induct)
  case (1 e c w)
  show ?case
  proof (cases "events w")
    case Nil
    then show ?thesis by simp
  next
    case (Cons t ts)
    then show ?thesis using 1 by simp
  qed
qed

lemma run_null:
  "m_socket (fst s) = None \<Longrightarrow>
     fst (run e s) = fst s \<and> sent (snd (run e s)) = sent (snd s) \<and> closed (snd (run e s)) = closed (snd s)"
proof (induction e s rule: run.induct)
  case (1 e c w)
  show ?case
  proof (cases "events w")
    case Nil
    then show ?thesis by simp
  next
    case (Cons t ts)
    then show ?thesis
      using 1 by (simp add: SendPacket_null NS_LOG_def)
  qed
qed

lemma started_fields:
  "m_socket (fst (StartApplication (Setup sp addr psize rate dur c, w))) = Some (TcpSocket addr)"
  "m_numPackets (fst (StartApplication (Setup sp addr psize rate dur c, w))) = rate * dur"
  "m_interval (fst (StartApplication (Setup sp addr psize rate dur c, w))) = sp rate"
  "m_packetsSent (fst (StartApplication (Setup sp addr psize rate dur c, w))) = m_packetsSent c"
  "snd (StartApplication (Setup sp addr psize rate dur c, w)) = w"
  by (simp_all add: StartApplication_def Setup_def)

text \<open>The whole life of a flow whose connection succeeds and that is never stopped.\<close>

lemma run_new_flow:
  assumes "events w = []"
  shows "snd (run e (ConnectionSucceeded e
            (StartApplication (Setup sp addr psize rate dur (new_CustomTcpClient a b), w)))) =
      w\<lparr>now := now w + of_nat (unat (rate * dur)) * sp rate,
        events := [],
        sent := sent w @ map (\<lambda>i. (now w + of_nat i * sp rate,
                  object_bytes e (GetNanoSeconds (now w + of_nat i * sp rate))))
                  [0..<unat (rate * dur)],
        logs := logs w @ (LOG_INFO, ''Connection Succeeded'')
                  # replicate (unat (rate * dur)) (LOG_INFO, ''Sending packet '')\<rparr>"
proof -
  obtain c' where s:
    "StartApplication (Setup sp addr psize rate dur (new_CustomTcpClient a b), w) = (c', w)"
    by (simp add: StartApplication_def)
  have f: "m_socket c' \<noteq> None" "m_numPackets c' = rate * dur" "m_interval c' = sp rate"
      "m_packetsSent c' = 0"
    using started_fields(1-4) [of sp addr psize rate dur "new_CustomTcpClient a b" w]
    unfolding s by (simp_all add: new_CustomTcpClient_def)
  show ?thesis
    unfolding s using run_after_connect [of c' w e] assms f by simp
qed

section \<open>Facts about the recorder\<close>

lemma latencies_PacketReceived:
  "latencies (PacketReceived e gs t packet src r) =
     (if 8 \<le> length packet
      then latencies r @ [gs (t - NanoSeconds (object_value e (CopyData packet 8)))]
      else latencies r)"
  by (simp add: PacketReceived_def Let_def)

section \<open>The properties\<close>

text \<open>
  In all of them \<open>e\<close> is the byte order of the host, shared by the generator and the
  recorder (both run in the one simulator process), \<open>sp\<close> is the interval computed from
  the rate and \<open>gs\<close> is \<^verbatim>\<open>Time::GetSeconds\<close>.
\<close>

subsection \<open>C1: the recorded latency\<close>

text \<open>
  C1. For a packet of at least 8 bytes, the sample appended to \<^verbatim>\<open>latencies\<close> is
  \<^verbatim>\<open>GetSeconds\<close> of the receive time minus the send time decoded from the first 8 bytes.
  When the decoded unsigned count is at most the receive time, that difference is
  the exact integer difference of the two, and it is not negative.
\<close>

theorem latency_is_receive_minus_send:
  assumes "8 \<le> length packet"
  shows "latencies (PacketReceived e gs recv packet src r) =
           latencies r @ [gs (recv - NanoSeconds (object_value e (CopyData packet 8)))]
    \<and> (uint (object_value e (CopyData packet 8)) \<le> sint recv \<longrightarrow>
          sint (recv - NanoSeconds (object_value e (CopyData packet 8))) =
            sint recv - uint (object_value e (CopyData packet 8))
          \<and> 0 \<le> sint (recv - NanoSeconds (object_value e (CopyData packet 8))))"
proof (intro conjI impI)
  show "latencies (PacketReceived e gs recv packet src r) =
          latencies r @ [gs (recv - NanoSeconds (object_value e (CopyData packet 8)))]"
    using assms by (simp add: latencies_PacketReceived)
next
  assume causal: "uint (object_value e (CopyData packet 8)) \<le> sint recv"
  then show d: "sint (recv - NanoSeconds (object_value e (CopyData packet 8))) =
          sint recv - uint (object_value e (CopyData packet 8))"
    unfolding NanoSeconds_def by (rule sint_diff_causal)
  show "0 \<le> sint (recv - NanoSeconds (object_value e (CopyData packet 8)))"
    unfolding d using causal by simp
qed

theorem latency_is_receive_minus_send_witness:
  "8 \<le> length [5, 0, 0, 0, 0, 0, 0, 0 :: byte]
   \<and> latencies (PacketReceived LittleEndian sint 30005 [5, 0, 0, 0, 0, 0, 0, 0] 1
        \<lparr>latencies = [], rx_logs = []\<rparr>) = [30000]
   \<and> uint (object_value LittleEndian (CopyData [5, 0, 0, 0, 0, 0, 0, 0] 8)) \<le> sint (30005 :: Time)
   \<and> sint (30005 - NanoSeconds (object_value LittleEndian (CopyData [5, 0, 0, 0, 0, 0, 0, 0] 8)))
       = 30000"
  using latency_is_receive_minus_send [of "[5, 0, 0, 0, 0, 0, 0, 0]" LittleEndian sint 30005 1
      "\<lparr>latencies = [], rx_logs = []\<rparr>"]
  by (simp add: CopyData_def NanoSeconds_def)

subsection \<open>C2: the packet count and the number of sends\<close>

text \<open>
  The count is a \<^verbatim>\<open>uint32_t\<close> product. With rate and duration both \<open>65536\<close> the product is
  \<open>2^32\<close> and \<^verbatim>\<open>m_numPackets\<close> is \<open>0\<close>.
\<close>

theorem packet_count_and_sends_counterexample:
  "0 < (65536 :: uint32)
   \<and> unat (m_numPackets (Setup (\<lambda>r. 0) 1 100 65536 65536 (new_CustomTcpClient 0 0))) = 0
   \<and> unat (65536 :: uint32) * unat (65536 :: uint32) = 4294967296"
  by (simp add: Setup_def)

text \<open>
  C2, amended. \<^verbatim>\<open>Setup\<close> sets the packet count to rate times duration modulo \<open>2^32\<close>,
  which is the product itself whenever that is below \<open>2^32\<close>. A new client that is set
  up, started and connected, and never stopped, makes exactly that many \<^verbatim>\<open>Send\<close> calls by
  the time no event is left.
\<close>

theorem packet_count_and_sends:
  assumes "events w = []"
  shows "unat (m_numPackets (Setup sp addr psize rate dur c)) = (unat rate * unat dur) mod 2 ^ 32
    \<and> (unat rate * unat dur < 2 ^ 32 \<longrightarrow>
          unat (m_numPackets (Setup sp addr psize rate dur c)) = unat rate * unat dur)
    \<and> length (sent (snd (run e (ConnectionSucceeded e
          (StartApplication (Setup sp addr psize rate dur (new_CustomTcpClient a b), w))))))
        = length (sent w)
          + unat (m_numPackets (Setup sp addr psize rate dur (new_CustomTcpClient a b)))"
proof (intro conjI impI)
  show m: "unat (m_numPackets (Setup sp addr psize rate dur c)) = (unat rate * unat dur) mod 2 ^ 32"
    by (simp add: Setup_def unat_word_ariths)
  show "unat (m_numPackets (Setup sp addr psize rate dur c)) = unat rate * unat dur"
    if "unat rate * unat dur < 2 ^ 32"
    unfolding m using that by simp
  show "length (sent (snd (run e (ConnectionSucceeded e
          (StartApplication (Setup sp addr psize rate dur (new_CustomTcpClient a b), w))))))
        = length (sent w)
          + unat (m_numPackets (Setup sp addr psize rate dur (new_CustomTcpClient a b)))"
    unfolding run_new_flow [OF assms] by (simp add: Setup_def)
qed

theorem packet_count_and_sends_witness:
  "events \<lparr>now = 2000000000, events = [], sent = [], closed = [], logs = []\<rparr> = []
   \<and> unat (10 :: uint32) * unat (10 :: uint32) < 2 ^ 32
   \<and> unat (m_numPackets (Setup (\<lambda>r. 100000000) 1 100 10 10 (new_CustomTcpClient 0 0))) = 100
   \<and> length (sent (snd (run LittleEndian (ConnectionSucceeded LittleEndian
        (StartApplication (Setup (\<lambda>r. 100000000) 1 100 10 10 (new_CustomTcpClient 0 0),
           \<lparr>now = 2000000000, events = [], sent = [], closed = [], logs = []\<rparr>)))))) = 100"
  using packet_count_and_sends [of "\<lparr>now = 2000000000, events = [], sent = [], closed = [], logs = []\<rparr>"
      "\<lambda>r. 100000000" 1 100 10 10 "new_CustomTcpClient 0 0" LittleEndian 0 0]
  by (simp add: Setup_def del: run.simps)

subsection \<open>C3: rescheduling\<close>

text \<open>
  \<^verbatim>\<open>SendPacket\<close> schedules its next invocation after every send. With one packet to send,
  the send that makes \<^verbatim>\<open>m_packetsSent\<close> equal to \<^verbatim>\<open>m_numPackets\<close> still leaves an event, here
  at time \<open>27\<close>.
\<close>

theorem reschedule_after_last_packet_counterexample:
  "m_socket \<lparr>m_socket = Some (TcpSocket 1), m_serverAddress = 1, m_packetSize = 100,
       m_numPackets = 1, m_interval = 7, m_packetsSent = 0, m_connected = True\<rparr> \<noteq> None
   \<and> SendPacket LittleEndian
       (\<lparr>m_socket = Some (TcpSocket 1), m_serverAddress = 1, m_packetSize = 100,
         m_numPackets = 1, m_interval = 7, m_packetsSent = 0, m_connected = True\<rparr>,
        \<lparr>now = 20, events = [], sent = [], closed = [], logs = []\<rparr>)
     = (\<lparr>m_socket = Some (TcpSocket 1), m_serverAddress = 1, m_packetSize = 100,
         m_numPackets = 1, m_interval = 7, m_packetsSent = 1, m_connected = True\<rparr>,
        \<lparr>now = 20, events = [27], sent = [(20, [20, 0, 0, 0, 0, 0, 0, 0])], closed = [],
         logs = [(LOG_INFO, ''Sending packet '')]\<rparr>)"
  by (simp add: SendPacket_def NS_LOG_def Schedule_def Let_def GetNanoSeconds_def le_bytes_def upt_rec)

text \<open>
  C3, amended. With the socket present, a \<^verbatim>\<open>SendPacket\<close> that has a packet left sends it,
  increments \<^verbatim>\<open>m_packetsSent\<close> and always schedules one more \<^verbatim>\<open>SendPacket\<close> after the interval,
  whether or not a packet remains. A \<^verbatim>\<open>SendPacket\<close> that runs when \<^verbatim>\<open>m_packetsSent\<close> equals
  \<^verbatim>\<open>m_numPackets\<close> changes nothing and schedules nothing, so the run ends with no event
  pending.
\<close>

theorem send_always_reschedules:
  assumes "m_socket c \<noteq> None"
  shows "(m_packetsSent c < m_numPackets c \<longrightarrow>
            m_packetsSent (fst (SendPacket e (c, w))) = m_packetsSent c + 1
          \<and> sent (snd (SendPacket e (c, w))) = sent w @ [(now w, object_bytes e (GetNanoSeconds (now w)))]
          \<and> events (snd (SendPacket e (c, w))) = insert_event (now w + m_interval c) (events w))
    \<and> (m_packetsSent c = m_numPackets c \<longrightarrow> SendPacket e (c, w) = (c, w))
    \<and> events (snd (run e (c, w))) = []"
proof (intro conjI impI)
  assume "m_packetsSent c < m_numPackets c"
  then have s: "SendPacket e (c, w) =
       (c\<lparr>m_packetsSent := m_packetsSent c + 1\<rparr>,
        w\<lparr>logs := logs w @ [(LOG_INFO, ''Sending packet '')],
          sent := sent w @ [(now w, object_bytes e (GetNanoSeconds (now w)))],
          events := insert_event (now w + m_interval c) (events w)\<rparr>)"
    using assms by (simp add: SendPacket_send)
  show "m_packetsSent (fst (SendPacket e (c, w))) = m_packetsSent c + 1"
    unfolding s by simp
  show "sent (snd (SendPacket e (c, w))) = sent w @ [(now w, object_bytes e (GetNanoSeconds (now w)))]"
    unfolding s by simp
  show "events (snd (SendPacket e (c, w))) = insert_event (now w + m_interval c) (events w)"
    unfolding s by simp
next
  assume "m_packetsSent c = m_numPackets c"
  then show "SendPacket e (c, w) = (c, w)"
    using assms by (simp add: SendPacket_done)
next
  show "events (snd (run e (c, w))) = []"
    by (rule events_run)
qed

theorem send_always_reschedules_witness:
  "m_socket \<lparr>m_socket = Some (TcpSocket 1), m_serverAddress = 1, m_packetSize = 100,
       m_numPackets = 2, m_interval = 7, m_packetsSent = 1, m_connected = True\<rparr> \<noteq> None
   \<and> (1 :: uint32) < 2
   \<and> events (snd (SendPacket LittleEndian
       (\<lparr>m_socket = Some (TcpSocket 1), m_serverAddress = 1, m_packetSize = 100,
         m_numPackets = 2, m_interval = 7, m_packetsSent = 1, m_connected = True\<rparr>,
        \<lparr>now = 20, events = [], sent = [], closed = [], logs = []\<rparr>))) = [27]
   \<and> (2 :: uint32) = 2
   \<and> SendPacket LittleEndian
       (\<lparr>m_socket = Some (TcpSocket 1), m_serverAddress = 1, m_packetSize = 100,
         m_numPackets = 2, m_interval = 7, m_packetsSent = 2, m_connected = True\<rparr>,
        \<lparr>now = 27, events = [], sent = [], closed = [], logs = []\<rparr>)
     = (\<lparr>m_socket = Some (TcpSocket 1), m_serverAddress = 1, m_packetSize = 100,
         m_numPackets = 2, m_interval = 7, m_packetsSent = 2, m_connected = True\<rparr>,
        \<lparr>now = 27, events = [], sent = [], closed = [], logs = []\<rparr>)"
  using send_always_reschedules [of
      "\<lparr>m_socket = Some (TcpSocket 1), m_serverAddress = 1, m_packetSize = 100,
         m_numPackets = 2, m_interval = 7, m_packetsSent = 1, m_connected = True\<rparr>"
      LittleEndian "\<lparr>now = 20, events = [], sent = [], closed = [], logs = []\<rparr>"]
    send_always_reschedules [of
      "\<lparr>m_socket = Some (TcpSocket 1), m_serverAddress = 1, m_packetSize = 100,
         m_numPackets = 2, m_interval = 7, m_packetsSent = 2, m_connected = True\<rparr>"
      LittleEndian "\<lparr>now = 27, events = [], sent = [], closed = [], logs = []\<rparr>"]
  by (simp del: run.simps)

subsection \<open>C4: a rate of zero\<close>

text \<open>
  \<^verbatim>\<open>Setup\<close> has no check of the rate. With rate \<open>0\<close> it returns a configured client, and
  that client starts: \<^verbatim>\<open>StartApplication\<close> opens the socket and \<^verbatim>\<open>ConnectionSucceeded\<close> marks it
  connected.
\<close>

theorem zero_rate_is_accepted_counterexample:
  "Setup (\<lambda>r. 0) 1 100 0 10 (new_CustomTcpClient 0 0)
     = \<lparr>m_socket = None, m_serverAddress = 1, m_packetSize = 100, m_numPackets = 0,
        m_interval = 0, m_packetsSent = 0, m_connected = False\<rparr>
   \<and> fst (ConnectionSucceeded LittleEndian (StartApplication
        (Setup (\<lambda>r. 0) 1 100 0 10 (new_CustomTcpClient 0 0),
         \<lparr>now = 2000000000, events = [], sent = [], closed = [], logs = []\<rparr>)))
     = \<lparr>m_socket = Some (TcpSocket 1), m_serverAddress = 1, m_packetSize = 100, m_numPackets = 0,
        m_interval = 0, m_packetsSent = 0, m_connected = True\<rparr>"
  by (simp add: Setup_def new_CustomTcpClient_def StartApplication_def ConnectionSucceeded_def
        SendPacket_def NS_LOG_def)

text \<open>
  C4, amended. \<^verbatim>\<open>Setup\<close> with rate \<open>0\<close> is accepted: it stores a packet count of \<open>0\<close>. The
  flow then starts and connects like any other, and on connection it only logs: nothing
  is sent and nothing is scheduled.
\<close>

theorem zero_rate_flow_sends_nothing:
  "m_numPackets (Setup sp addr psize 0 dur c) = 0
   \<and> m_socket (fst (StartApplication (Setup sp addr psize 0 dur c, w))) = Some (TcpSocket addr)
   \<and> ConnectionSucceeded e (StartApplication (Setup sp addr psize 0 dur c, w))
       = ((Setup sp addr psize 0 dur c)
            \<lparr>m_socket := Some (TcpSocket addr), m_connected := True\<rparr>,
          NS_LOG LOG_INFO ''Connection Succeeded'' w)"
  by (simp add: Setup_def StartApplication_def ConnectionSucceeded_def SendPacket_def)

subsection \<open>C5: the payload\<close>

text \<open>
  \<^verbatim>\<open>SendPacket\<close> builds the packet from the 8 bytes of the timestamp and never reads
  \<^verbatim>\<open>m_packetSize\<close>. With the configuration of \<^verbatim>\<open>main\<close> (packet size \<open>100\<close>) the first packet has
  8 bytes.
\<close>

theorem payload_is_eight_bytes_counterexample:
  "m_packetSize (Setup (\<lambda>r. 100000000) 1 100 10 10 (new_CustomTcpClient 0 0)) = 100
   \<and> sent (snd (ConnectionSucceeded LittleEndian (StartApplication
        (Setup (\<lambda>r. 100000000) 1 100 10 10 (new_CustomTcpClient 0 0),
         \<lparr>now = 2000000000, events = [], sent = [], closed = [], logs = []\<rparr>))))
     = [(2000000000, [0, 148, 53, 119, 0, 0, 0, 0])]"
  by (simp add: Setup_def new_CustomTcpClient_def StartApplication_def ConnectionSucceeded_def
        SendPacket_def NS_LOG_def Schedule_def Let_def GetNanoSeconds_def le_bytes_def upt_rec)

text \<open>
  C5, amended. Every payload that \<^verbatim>\<open>SendPacket\<close> writes is exactly 8 bytes: the send time
  as an unsigned 64-bit nanosecond count in the byte order of the host, with no padding.
  The configured packet size has no effect on it.
\<close>

theorem payload_is_the_timestamp_only:
  assumes "m_socket c \<noteq> None" "m_packetsSent c < m_numPackets c"
  shows "sent (snd (SendPacket e (c, w))) =
           sent w @ [(now w, object_bytes e (GetNanoSeconds (now w)))]
    \<and> length (object_bytes e (GetNanoSeconds (now w))) = 8
    \<and> object_value e (object_bytes e (GetNanoSeconds (now w))) = GetNanoSeconds (now w)
    \<and> sent (snd (SendPacket e (c\<lparr>m_packetSize := psize\<rparr>, w))) = sent (snd (SendPacket e (c, w)))"
  using assms
  by (simp add: SendPacket_send length_object_bytes object_value_object_bytes)

theorem payload_is_the_timestamp_only_witness:
  "m_socket \<lparr>m_socket = Some (TcpSocket 1), m_serverAddress = 1, m_packetSize = 100,
       m_numPackets = 100, m_interval = 100000000, m_packetsSent = 0, m_connected = True\<rparr> \<noteq> None
   \<and> (0 :: uint32) < 100
   \<and> sent (snd (SendPacket BigEndian
       (\<lparr>m_socket = Some (TcpSocket 1), m_serverAddress = 1, m_packetSize = 100,
         m_numPackets = 100, m_interval = 100000000, m_packetsSent = 0, m_connected = True\<rparr>,
        \<lparr>now = 2000000000, events = [], sent = [], closed = [], logs = []\<rparr>)))
      = [(2000000000, [0, 0, 0, 0, 119, 53, 148, 0])]
   \<and> length [0, 0, 0, 0, 119, 53, 148, 0 :: byte] = 8"
  using payload_is_the_timestamp_only [of
      "\<lparr>m_socket = Some (TcpSocket 1), m_serverAddress = 1, m_packetSize = 100,
         m_numPackets = 100, m_interval = 100000000, m_packetsSent = 0, m_connected = True\<rparr>"
      BigEndian "\<lparr>now = 2000000000, events = [], sent = [], closed = [], logs = []\<rparr>" 100]
  by (simp add: GetNanoSeconds_def le_bytes_def upt_rec)

subsection \<open>C6: the length of the latency log\<close>

text \<open>
  C6. Over any sequence of arrivals the latency log grows by one entry for each packet
  of at least 8 bytes and by none for the others; a packet of fewer than 8 bytes only
  adds the warning to the log output and leaves the latencies as they were.
\<close>

theorem log_length_counts_full_arrivals:
  "length (latencies (arrivals e gs arrs r)) =
     length (latencies r) + length (filter (\<lambda>(t, packet, src). 8 \<le> length packet) arrs)
   \<and> (length packet < 8 \<longrightarrow>
        PacketReceived e gs t packet src r =
          r\<lparr>rx_logs := rx_logs r
                @ [(LOG_WARN, ''Packet received with insufficient size. Ignoring...'')]\<rparr>)"
proof
  show "length (latencies (arrivals e gs arrs r)) =
     length (latencies r) + length (filter (\<lambda>(t, packet, src). 8 \<le> length packet) arrs)"
  proof (induction arrs arbitrary: r)
    case Nil
    show ?case by simp
  next
    case (Cons a arrs)
    obtain t p s where a: "a = (t, p, s)"
      by (cases a) auto
    show ?case
      unfolding a using Cons [of "PacketReceived e gs t p s r"]
      by (simp add: latencies_PacketReceived)
  qed
next
  show "length packet < 8 \<longrightarrow>
        PacketReceived e gs t packet src r =
          r\<lparr>rx_logs := rx_logs r
                @ [(LOG_WARN, ''Packet received with insufficient size. Ignoring...'')]\<rparr>"
    by (simp add: PacketReceived_def)
qed

theorem log_length_counts_full_arrivals_witness:
  "length (latencies (arrivals LittleEndian sint
      [(10, [5, 0, 0, 0, 0, 0, 0, 0], 1), (11, [1, 2, 3], 1), (12, [7, 0, 0, 0, 0, 0, 0, 0, 9], 1)]
      \<lparr>latencies = [], rx_logs = []\<rparr>)) = 2
   \<and> length [1, 2, 3 :: byte] < 8
   \<and> PacketReceived LittleEndian sint 11 [1, 2, 3] 1 \<lparr>latencies = [5], rx_logs = []\<rparr> =
       \<lparr>latencies = [5],
        rx_logs = [(LOG_WARN, ''Packet received with insufficient size. Ignoring...'')]\<rparr>"
  using log_length_counts_full_arrivals [of LittleEndian sint
      "[(10, [5, 0, 0, 0, 0, 0, 0, 0], 1), (11, [1, 2, 3], 1), (12, [7, 0, 0, 0, 0, 0, 0, 0, 9], 1)]"
      "\<lparr>latencies = [], rx_logs = []\<rparr>" "[1, 2, 3]" 11 1]
    log_length_counts_full_arrivals [of LittleEndian sint "[]"
      "\<lparr>latencies = [5], rx_logs = []\<rparr>" "[1, 2, 3]" 11 1]
  by simp

subsection \<open>C7: a send time after the receive time\<close>

text \<open>
  \<^verbatim>\<open>PacketReceived\<close> compares nothing but the size. A packet received at time \<open>5\<close> whose
  timestamp is \<open>9\<close> adds the sample for \<open>-4\<close> ticks to the latencies, with the same
  \<^verbatim>\<open>NS_LOG_INFO\<close> line as the packet that arrives at time \<open>9\<close>, and no warning.
\<close>

theorem negative_latency_is_logged_as_a_sample_counterexample:
  "8 \<le> length [9, 0, 0, 0, 0, 0, 0, 0 :: byte]
   \<and> sint (5 :: Time) < sint (NanoSeconds (object_value LittleEndian (CopyData [9, 0, 0, 0, 0, 0, 0, 0] 8)))
   \<and> PacketReceived LittleEndian sint 5 [9, 0, 0, 0, 0, 0, 0, 0] 1 \<lparr>latencies = [], rx_logs = []\<rparr>
       = \<lparr>latencies = [- 4], rx_logs = [(LOG_INFO, ''Packet received from: '')]\<rparr>
   \<and> PacketReceived LittleEndian sint 9 [9, 0, 0, 0, 0, 0, 0, 0] 1 \<lparr>latencies = [], rx_logs = []\<rparr>
       = \<lparr>latencies = [0], rx_logs = [(LOG_INFO, ''Packet received from: '')]\<rparr>"
  by (simp add: PacketReceived_def CopyData_def NanoSeconds_def)

text \<open>
  C7, amended. When the decoded send time is later than the receive time, the recorder
  appends the sample of the negative difference to the latency log as it does for every
  other packet of at least 8 bytes, with the usual information line and no report.
\<close>

theorem negative_latency_is_appended:
  assumes "8 \<le> length packet" "0 \<le> sint recv"
    and "sint recv < sint (NanoSeconds (object_value e (CopyData packet 8)))"
  shows "PacketReceived e gs recv packet src r =
           r\<lparr>latencies := latencies r @ [gs (recv - NanoSeconds (object_value e (CopyData packet 8)))],
             rx_logs := rx_logs r @ [(LOG_INFO, ''Packet received from: '')]\<rparr>
    \<and> sint (recv - NanoSeconds (object_value e (CopyData packet 8))) =
         sint recv - sint (NanoSeconds (object_value e (CopyData packet 8)))
    \<and> sint (recv - NanoSeconds (object_value e (CopyData packet 8))) < 0"
proof (intro conjI)
  show "PacketReceived e gs recv packet src r =
           r\<lparr>latencies := latencies r @ [gs (recv - NanoSeconds (object_value e (CopyData packet 8)))],
             rx_logs := rx_logs r @ [(LOG_INFO, ''Packet received from: '')]\<rparr>"
    using assms(1) by (simp add: PacketReceived_def Let_def)
  show d: "sint (recv - NanoSeconds (object_value e (CopyData packet 8))) =
         sint recv - sint (NanoSeconds (object_value e (CopyData packet 8)))"
    using assms(2,3) by (rule sint_diff_late)
  show "sint (recv - NanoSeconds (object_value e (CopyData packet 8))) < 0"
    unfolding d using assms(3) by simp
qed

theorem negative_latency_is_appended_witness:
  "8 \<le> length [9, 0, 0, 0, 0, 0, 0, 0 :: byte] \<and> 0 \<le> sint (5 :: Time)
   \<and> sint (5 :: Time) < sint (NanoSeconds (object_value BigEndian (CopyData [0, 0, 0, 0, 0, 0, 0, 9] 8)))
   \<and> PacketReceived BigEndian sint 5 [0, 0, 0, 0, 0, 0, 0, 9] 1 \<lparr>latencies = [3], rx_logs = []\<rparr>
       = \<lparr>latencies = [3, - 4], rx_logs = [(LOG_INFO, ''Packet received from: '')]\<rparr>"
  using negative_latency_is_appended [of "[0, 0, 0, 0, 0, 0, 0, 9]" 5 BigEndian sint 1
      "\<lparr>latencies = [3], rx_logs = []\<rparr>"]
  by (simp add: CopyData_def NanoSeconds_def)

subsection \<open>C8: the send times\<close>

text \<open>
  C8. A new client that is set up, started and connected at time \<open>now w\<close>, with no event
  pending, sends its packets at the times \<open>now w + k * interval\<close> for \<open>k\<close> from \<open>0\<close> below the
  packet count, in this order; the first of them is sent inside \<^verbatim>\<open>ConnectionSucceeded\<close> itself,
  at \<open>now w\<close>. The times are \<open>Time\<close> values, so the sums are 64-bit sums.
\<close>

theorem sends_at_multiples_of_interval:
  assumes "events w = []"
  shows "map fst (sent (snd (run e (ConnectionSucceeded e
            (StartApplication (Setup sp addr psize rate dur (new_CustomTcpClient a b), w))))))
         = map fst (sent w)
           @ map (\<lambda>k. now w + of_nat k * m_interval (Setup sp addr psize rate dur (new_CustomTcpClient a b)))
               [0..<unat (m_numPackets (Setup sp addr psize rate dur (new_CustomTcpClient a b)))]
    \<and> map fst (sent (snd (ConnectionSucceeded e
            (StartApplication (Setup sp addr psize rate dur (new_CustomTcpClient a b), w)))))
         = map fst (sent w)
           @ (if m_numPackets (Setup sp addr psize rate dur (new_CustomTcpClient a b)) = 0
              then [] else [now w])"
proof
  show "map fst (sent (snd (run e (ConnectionSucceeded e
            (StartApplication (Setup sp addr psize rate dur (new_CustomTcpClient a b), w))))))
         = map fst (sent w)
           @ map (\<lambda>k. now w + of_nat k * m_interval (Setup sp addr psize rate dur (new_CustomTcpClient a b)))
               [0..<unat (m_numPackets (Setup sp addr psize rate dur (new_CustomTcpClient a b)))]"
    unfolding run_new_flow [OF assms] by (simp add: Setup_def comp_def)
next
  show "map fst (sent (snd (ConnectionSucceeded e
            (StartApplication (Setup sp addr psize rate dur (new_CustomTcpClient a b), w)))))
         = map fst (sent w)
           @ (if m_numPackets (Setup sp addr psize rate dur (new_CustomTcpClient a b)) = 0
              then [] else [now w])"
    by (simp add: Setup_def new_CustomTcpClient_def StartApplication_def ConnectionSucceeded_def
          SendPacket_def NS_LOG_def Schedule_def Let_def word_greater_zero_iff)
qed

theorem sends_at_multiples_of_interval_witness:
  "events \<lparr>now = 2000, events = [], sent = [], closed = [], logs = []\<rparr> = []
   \<and> map fst (sent (snd (run LittleEndian (ConnectionSucceeded LittleEndian
        (StartApplication (Setup (\<lambda>r. 250) 1 100 4 1 (new_CustomTcpClient 0 0),
           \<lparr>now = 2000, events = [], sent = [], closed = [], logs = []\<rparr>))))))
      = [2000, 2250, 2500, 2750]
   \<and> map fst (sent (snd (ConnectionSucceeded LittleEndian
        (StartApplication (Setup (\<lambda>r. 250) 1 100 4 1 (new_CustomTcpClient 0 0),
           \<lparr>now = 2000, events = [], sent = [], closed = [], logs = []\<rparr>)))))
      = [2000]"
  using sends_at_multiples_of_interval [of
      "\<lparr>now = 2000, events = [], sent = [], closed = [], logs = []\<rparr>" LittleEndian
      "\<lambda>r. 250" 1 100 4 1 0 0]
  by (simp add: Setup_def upt_rec del: run.simps)

subsection \<open>C9: SendPacket after StopApplication\<close>

text \<open>
  C9. After \<^verbatim>\<open>StopApplication\<close> the socket pointer is null, and a \<^verbatim>\<open>SendPacket\<close> that runs then
  takes the null branch: the client is unchanged and nothing is sent or scheduled; the
  only effect is the \<^verbatim>\<open>NS_LOG_WARN\<close> line. Every event still pending after the stop runs
  that way, so the run ends with the client and the packets sent as the stop left them.
\<close>

theorem send_after_stop_is_a_no_op:
  "m_socket (fst (StopApplication (c, w))) = None
   \<and> SendPacket e (StopApplication (c, w))
       = (fst (StopApplication (c, w)),
          (snd (StopApplication (c, w)))
            \<lparr>logs := logs (snd (StopApplication (c, w)))
                @ [(LOG_WARN, ''Socket is null. Cannot send packet.'')]\<rparr>)
   \<and> fst (run e (StopApplication (c, w))) = fst (StopApplication (c, w))
   \<and> sent (snd (run e (StopApplication (c, w)))) = sent w
   \<and> events (snd (run e (StopApplication (c, w)))) = []"
proof -
  have n: "m_socket (fst (StopApplication (c, w))) = None"
    by (simp add: StopApplication_def split: option.split)
  have s: "sent (snd (StopApplication (c, w))) = sent w"
    by (simp add: StopApplication_def split: option.split)
  obtain c' w' where p: "StopApplication (c, w) = (c', w')"
    by (cases "StopApplication (c, w)")
  have "SendPacket e (c', w') =
          (c', w'\<lparr>logs := logs w' @ [(LOG_WARN, ''Socket is null. Cannot send packet.'')]\<rparr>)"
    using n unfolding p by (simp add: SendPacket_null NS_LOG_def)
  then show ?thesis
    using n s run_null [OF n, of e] events_run [of e "StopApplication (c, w)"]
    unfolding p by (simp del: run.simps)
qed

subsection \<open>C10: the timestamp round trip\<close>

text \<open>
  C10. For every send time, the packet that \<^verbatim>\<open>SendPacket\<close> builds decodes, by the copy of
  its first 8 bytes and \<^verbatim>\<open>NanoSeconds\<close>, to that same time. \<^verbatim>\<open>PacketReceived\<close> recovers it:
  whatever the receive time, the sample it appends for that packet is \<^verbatim>\<open>GetSeconds\<close> of the
  receive time minus the time the packet was sent, so the packet received at the time it
  was sent yields the sample of a zero difference.
\<close>

theorem timestamp_roundtrip:
  assumes "m_socket c \<noteq> None" "m_packetsSent c < m_numPackets c"
  shows "NanoSeconds (object_value e (CopyData (snd (last (sent (snd (SendPacket e (c, w)))))) 8))
           = now w
    \<and> 8 \<le> length (snd (last (sent (snd (SendPacket e (c, w))))))
    \<and> PacketReceived e gs recv (snd (last (sent (snd (SendPacket e (c, w)))))) src r
         = r\<lparr>latencies := latencies r @ [gs (recv - now w)],
             rx_logs := rx_logs r @ [(LOG_INFO, ''Packet received from: '')]\<rparr>
    \<and> latencies (PacketReceived e gs (now w) (snd (last (sent (snd (SendPacket e (c, w)))))) src r)
         = latencies r @ [gs 0]"
proof -
  have p: "snd (last (sent (snd (SendPacket e (c, w))))) = object_bytes e (GetNanoSeconds (now w))"
    using assms by (simp add: SendPacket_send)
  have rt: "NanoSeconds (object_value e (CopyData (object_bytes e (GetNanoSeconds (now w))) 8)) = now w"
    by (simp add: CopyData_def length_object_bytes object_value_object_bytes
          NanoSeconds_def GetNanoSeconds_def)
  have rx: "PacketReceived e gs t (object_bytes e (GetNanoSeconds (now w))) src r
         = r\<lparr>latencies := latencies r @ [gs (t - now w)],
             rx_logs := rx_logs r @ [(LOG_INFO, ''Packet received from: '')]\<rparr>" for t
    using rt by (simp add: PacketReceived_def Let_def length_object_bytes)
  show ?thesis
    unfolding p using rt rx [of recv] rx [of "now w"] by (simp add: length_object_bytes)
qed

theorem timestamp_roundtrip_witness:
  "m_socket (new_CustomTcpClient 0 3\<lparr>m_socket := Some (TcpSocket 1)\<rparr>) \<noteq> None
   \<and> m_packetsSent (new_CustomTcpClient 0 3\<lparr>m_socket := Some (TcpSocket 1)\<rparr>)
       < m_numPackets (new_CustomTcpClient 0 3\<lparr>m_socket := Some (TcpSocket 1)\<rparr>)
   \<and> snd (last (sent (snd (SendPacket BigEndian
          (new_CustomTcpClient 0 3\<lparr>m_socket := Some (TcpSocket 1)\<rparr>,
           \<lparr>now = 258, events = [], sent = [], closed = [], logs = []\<rparr>)))))
       = [0, 0, 0, 0, 0, 0, 1, 2]
   \<and> NanoSeconds (object_value BigEndian (CopyData [0, 0, 0, 0, 0, 0, 1, 2] 8)) = 258
   \<and> PacketReceived BigEndian sint 30258 [0, 0, 0, 0, 0, 0, 1, 2] 1
         \<lparr>latencies = [7], rx_logs = []\<rparr>
       = \<lparr>latencies = [7, 30000], rx_logs = [(LOG_INFO, ''Packet received from: '')]\<rparr>
   \<and> latencies (PacketReceived BigEndian sint 258 [0, 0, 0, 0, 0, 0, 1, 2] 1
         \<lparr>latencies = [7], rx_logs = []\<rparr>) = [7, 0]"
  using timestamp_roundtrip [where c = "new_CustomTcpClient 0 3\<lparr>m_socket := Some (TcpSocket 1)\<rparr>"
      and e = BigEndian
      and w = "\<lparr>now = 258, events = [], sent = [], closed = [], logs = []\<rparr>"
      and gs = sint and recv = 30258 and src = 1
      and r = "\<lparr>latencies = [7], rx_logs = []\<rparr>"]
  by (simp add: new_CustomTcpClient_def SendPacket_def NS_LOG_def Schedule_def Let_def
        GetNanoSeconds_def le_bytes_def upt_rec PacketReceived_def CopyData_def NanoSeconds_def)

end
